theory Spec2Isabelle
  imports Complex_Main "HOL-Library.Multiset"
begin

section \<open>JavaScript numbers and the built-ins the score function calls\<close>

text \<open>
  A JavaScript Number is modelled as an exact rational, one of the two infinities, or NaN.
  The limits of the model: doubles are not rounded (a literal or a sum beyond 2^53, or a
  literal below the smallest double, is kept exact), \<open>-0\<close> is \<open>0\<close>, and a string is an
  Isabelle \<open>string\<close>, so only code units below 256 occur. On the values a card can carry
  none of these limits is reached.
\<close>

datatype number = NaN | Finite rat | PosInfinity | NegInfinity

text \<open>The operators \<open>+\<close>, unary \<open>-\<close>, binary \<open>-\<close>, \<open><\<close> and \<open>>\<close> on Numbers.\<close>

fun add :: "number \<Rightarrow> number \<Rightarrow> number" where
  "add NaN _ = NaN"
| "add _ NaN = NaN"
| "add (Finite a) (Finite b) = Finite (a + b)"
| "add PosInfinity NegInfinity = NaN"
| "add NegInfinity PosInfinity = NaN"
| "add PosInfinity _ = PosInfinity"
| "add _ PosInfinity = PosInfinity"
| "add NegInfinity _ = NegInfinity"
| "add _ NegInfinity = NegInfinity"

fun neg :: "number \<Rightarrow> number" where
  "neg NaN = NaN"
| "neg (Finite a) = Finite (- a)"
| "neg PosInfinity = NegInfinity"
| "neg NegInfinity = PosInfinity"

definition sub :: "number \<Rightarrow> number \<Rightarrow> number" where
  "sub x y = add x (neg y)"

fun lt :: "number \<Rightarrow> number \<Rightarrow> bool" where
  "lt NaN _ = False"
| "lt _ NaN = False"
| "lt (Finite a) (Finite b) = (a < b)"
| "lt PosInfinity _ = False"
| "lt _ PosInfinity = True"
| "lt NegInfinity NegInfinity = False"
| "lt NegInfinity _ = True"
| "lt _ NegInfinity = False"

definition gt :: "number \<Rightarrow> number \<Rightarrow> bool" where
  "gt x y = lt y x"

text \<open>\<open>x >= y\<close> is "not (x < y), and neither is NaN".\<close>

definition ge :: "number \<Rightarrow> number \<Rightarrow> bool" where
  "ge x y = (x \<noteq> NaN \<and> y \<noteq> NaN \<and> \<not> lt x y)"

subsection \<open>Strings to Numbers\<close>

text \<open>
  White space and line terminators that \<open>StringToNumber\<close> and \<open>parseInt\<close> strip: TAB, LF,
  VT, FF, CR, SP and NBSP (the ones below 256).
\<close>

definition isStrWhiteSpaceChar :: "char \<Rightarrow> bool" where
  "isStrWhiteSpaceChar c =
     (c = CHR 0x09 \<or> c = CHR 0x0A \<or> c = CHR 0x0B \<or> c = CHR 0x0C \<or> c = CHR 0x0D
      \<or> c = CHR 0x20 \<or> c = CHR 0xA0)"

definition trimStart :: "string \<Rightarrow> string" where
  "trimStart s = dropWhile isStrWhiteSpaceChar s"

definition trim :: "string \<Rightarrow> string" where
  "trim s = rev (trimStart (rev (trimStart s)))"

text \<open>The value of a character as a digit in some radix up to 16, if it is one.\<close>

definition digitValue :: "char \<Rightarrow> nat option" where
  "digitValue c =
     (let n = (of_char c :: nat) in
      if 48 \<le> n \<and> n \<le> 57 then Some (n - 48)
      else if 97 \<le> n \<and> n \<le> 102 then Some (n - 87)
      else if 65 \<le> n \<and> n \<le> 70 then Some (n - 55)
      else None)"

definition isRadixDigit :: "nat \<Rightarrow> char \<Rightarrow> bool" where
  "isRadixDigit R c = (case digitValue c of None \<Rightarrow> False | Some d \<Rightarrow> d < R)"

definition digitsValue :: "nat \<Rightarrow> string \<Rightarrow> nat" where
  "digitsValue R ds =
     fold (\<lambda>c acc. acc * R + (case digitValue c of None \<Rightarrow> 0 | Some d \<Rightarrow> d)) ds 0"

text \<open>\<open>DecimalDigits\<close> that run to the end of the string.\<close>

definition decimalDigits :: "string \<Rightarrow> nat option" where
  "decimalDigits ds =
     (if ds \<noteq> [] \<and> list_all (isRadixDigit 10) ds then Some (digitsValue 10 ds) else None)"

text \<open>\<open>SignedInteger\<close> of an exponent part.\<close>

fun signedInteger :: "string \<Rightarrow> int option" where
  "signedInteger [] = None"
| "signedInteger (c # r) =
     (if c = CHR ''+'' then map_option int (decimalDigits r)
      else if c = CHR ''-'' then map_option (\<lambda>n. - int n) (decimalDigits r)
      else map_option int (decimalDigits (c # r)))"

text \<open>What follows the mantissa: nothing (exponent 0) or an \<open>ExponentPart\<close>.\<close>

fun exponentPart :: "string \<Rightarrow> int option" where
  "exponentPart [] = Some 0"
| "exponentPart (c # r) =
     (if c = CHR ''e'' \<or> c = CHR ''E'' then signedInteger r else None)"

text \<open>What follows the integer digits: an optional dot with its fraction digits.\<close>

fun fractionPart :: "string \<Rightarrow> string \<times> string" where
  "fractionPart [] = ([], [])"
| "fractionPart (c # r) =
     (if c = CHR ''.'' then (takeWhile (isRadixDigit 10) r, dropWhile (isRadixDigit 10) r)
      else ([], c # r))"

definition scale10 :: "rat \<Rightarrow> int \<Rightarrow> rat" where
  "scale10 m e = (if 0 \<le> e then m * 10 ^ nat e else m / 10 ^ nat (- e))"

text \<open>
  \<open>StrUnsignedDecimalLiteral\<close>: \<open>Infinity\<close>, or digits with an optional fraction and an
  optional exponent, at least one digit before or after the dot.
\<close>

definition strUnsignedDecimalLiteral :: "string \<Rightarrow> number" where
  "strUnsignedDecimalLiteral t =
     (if t = ''Infinity'' then PosInfinity
      else
        let ip = takeWhile (isRadixDigit 10) t;
            (frac, rest) = fractionPart (dropWhile (isRadixDigit 10) t)
        in if ip = [] \<and> frac = [] then NaN
           else (case exponentPart rest of
                   None \<Rightarrow> NaN
                 | Some e \<Rightarrow>
                     Finite (scale10 (of_nat (digitsValue 10 (ip @ frac))) (e - int (length frac)))))"

text \<open>\<open>NonDecimalIntegerLiteral\<close>: \<open>0x\<close>, \<open>0o\<close> or \<open>0b\<close> and digits of that radix to the end.\<close>

fun nonDecimalIntegerLiteral :: "string \<Rightarrow> nat option" where
  "nonDecimalIntegerLiteral (z # p # ds) =
     (let R = (if p = CHR ''x'' \<or> p = CHR ''X'' then 16
               else if p = CHR ''o'' \<or> p = CHR ''O'' then 8
               else if p = CHR ''b'' \<or> p = CHR ''B'' then 2 else (0::nat))
      in if z = CHR ''0'' \<and> R \<noteq> 0 \<and> ds \<noteq> [] \<and> list_all (isRadixDigit R) ds
         then Some (digitsValue R ds) else None)"
| "nonDecimalIntegerLiteral _ = None"

text \<open>\<open>ToNumber\<close> of a string (\<open>StringToNumber\<close>).\<close>

definition toNumber :: "string \<Rightarrow> number" where
  "toNumber s =
     (let t = trim s in
      case t of
        [] \<Rightarrow> Finite 0
      | c # r \<Rightarrow>
          (case nonDecimalIntegerLiteral t of
             Some n \<Rightarrow> Finite (of_nat n)
           | None \<Rightarrow>
               if c = CHR ''+'' then strUnsignedDecimalLiteral r
               else if c = CHR ''-'' then neg (strUnsignedDecimalLiteral r)
               else strUnsignedDecimalLiteral t))"

text \<open>\<open>isNaN(v)\<close> and \<open>v == 0\<close> for a string \<open>v\<close>: both convert it with \<open>ToNumber\<close>.\<close>

definition isNaN :: "string \<Rightarrow> bool" where
  "isNaN v = (toNumber v = NaN)"

definition looseEqualsZero :: "string \<Rightarrow> bool" where
  "looseEqualsZero v = (toNumber v = Finite 0)"

text \<open>
  \<open>parseInt(v)\<close> with no radix: leading white space, a sign, \<open>0x\<close> for radix 16, then the
  longest run of digits; NaN when there is none.
\<close>

definition parseInt :: "string \<Rightarrow> number" where
  "parseInt s =
     (let S = trimStart s;
          (sign, S1) = (case S of
                          [] \<Rightarrow> (1::int, S)
                        | c # r \<Rightarrow> if c = CHR ''-'' then (- 1, r)
                                   else if c = CHR ''+'' then (1, r) else (1, S));
          (R, S2) = (case S1 of
                       a # b # r \<Rightarrow> if a = CHR ''0'' \<and> (b = CHR ''x'' \<or> b = CHR ''X'')
                                    then (16::nat, r) else (10, S1)
                     | _ \<Rightarrow> (10, S1));
          Z = takeWhile (isRadixDigit R) S2
      in if Z = [] then NaN else Finite (of_int (sign * int (digitsValue R Z))))"

section \<open>The score engine\<close>

text \<open>
  A card as the Card Source lists it. Its \<open>value\<close> field is a JSON string; the field is
  named \<open>cardValue\<close> here.
\<close>

record card =
  code :: string
  cardValue :: string
  suit :: string

text \<open>The body of the \<open>forEach\<close> callback of \<open>scorePlayer\<close>, on the pair (score, aceCount).\<close>

definition scoreCard :: "card \<Rightarrow> number \<times> nat \<Rightarrow> number \<times> nat" where
  "scoreCard c = (\<lambda>(score, aceCount).
     if \<not> isNaN (cardValue c) then
       (add score (if looseEqualsZero (cardValue c) then Finite 10 else parseInt (cardValue c)),
        aceCount)
     else if cardValue c = ''KING'' \<or> cardValue c = ''QUEEN'' \<or> cardValue c = ''JACK'' then
       (add score (Finite 10), aceCount)
     else
       (add score (Finite 11), aceCount + 1))"

text \<open>The \<open>while\<close> loop of \<open>scorePlayer\<close>; it ends because \<open>aceCount\<close> falls.\<close>

function aceLoop :: "number \<Rightarrow> nat \<Rightarrow> number" where
  "aceLoop score aceCount =
     (if gt score (Finite 21) \<and> aceCount > 0
      then aceLoop (sub score (Finite 10)) (aceCount - 1)
      else score)"
  by pat_completeness auto
termination
  by (relation "measure snd") auto

declare aceLoop.simps [simp del]

text \<open>
  \<open>scorePlayer\<close> once the pile is chosen: the scan, then the loop. The choice of the pile
  is made in \<open>scorePlayer\<close> itself, with the client below.
\<close>

definition score :: "card list \<Rightarrow> number" where
  "score pile = (case fold scoreCard pile (Finite 0, 0) of (s, aceCount) \<Rightarrow> aceLoop s aceCount)"


section \<open>The server\<close>

text \<open>
  Two services stand behind the server and are not part of the repository: the MySQL table
  \<open>games\<close> and the Card Source, a web API. Both are modelled as state. The table is a map
  from the unique \<open>gameName\<close> to its row. The Card Source keeps, for every deck id, the cards
  still in the deck (top first), the cards drawn and not yet put in a pile (latest first),
  and the piles by name; it follows the contract the specification gives for it: a new
  deck is shuffled and has no pile, a draw takes the top card, a card added to a pile goes
  to its end, and a pile is listed in that order. The order of the requests it serves is
  kept in \<open>requests\<close>.
\<close>

datatype error = RequestFailed | TypeError

record row =
  gameName :: string
  deckId :: string
  gamesWon :: nat
  gamesLost :: nat

record pile =
  cards :: "card list"

record deck =
  remaining :: "card list"
  drawn :: "card list"
  piles :: "string \<rightharpoonup> card list"

datatype request =
    NewShuffle
  | Draw string
  | PileAdd string string string
  | PileList string string

record world =
  games :: "string \<rightharpoonup> row"
  decks :: "string \<rightharpoonup> deck"
  requests :: "request list"

text \<open>
  A request is a function of the world that returns a value or an error, and the world
  after it; an error does not undo what was done before it. \<open>await\<close> runs a request and
  hands its value to what follows, as the \<open>await\<close> of an \<open>async\<close> function does.
\<close>

definition resolve :: "'a \<Rightarrow> world \<Rightarrow> (error + 'a) \<times> world" where
  "resolve x w = (Inr x, w)"

definition reject :: "error \<Rightarrow> world \<Rightarrow> (error + 'a) \<times> world" where
  "reject e w = (Inl e, w)"

definition await ::
  "(world \<Rightarrow> (error + 'a) \<times> world) \<Rightarrow> ('a \<Rightarrow> world \<Rightarrow> (error + 'b) \<times> world)
     \<Rightarrow> world \<Rightarrow> (error + 'b) \<times> world" where
  "await m k w = (case m w of (Inl e, w') \<Rightarrow> (Inl e, w') | (Inr x, w') \<Rightarrow> k x w')"

subsection \<open>The Card Source\<close>

text \<open>
  \<open>GET /new/shuffle/?deck_count=1\<close>. What the service answers, the new deck id and the
  order of the shuffled cards, is the parameter \<open>fresh\<close>.
\<close>

definition newShuffle :: "string \<times> card list \<Rightarrow> world \<Rightarrow> (error + string) \<times> world" where
  "newShuffle fresh w =
     (case fresh of (deck_id, shuffled) \<Rightarrow>
        (Inr deck_id,
         w\<lparr>decks := (decks w)(deck_id \<mapsto> \<lparr>remaining = shuffled, drawn = [], piles = Map.empty\<rparr>),
           requests := requests w @ [NewShuffle]\<rparr>))"

text \<open>\<open>GET /<deckId>/draw/?count=1\<close>; the value is the \<open>cards\<close> array of the answer.\<close>

definition drawOne :: "string \<Rightarrow> world \<Rightarrow> (error + card list) \<times> world" where
  "drawOne d w =
     (let w1 = w\<lparr>requests := requests w @ [Draw d]\<rparr> in
      case decks w d of
        None \<Rightarrow> (Inl RequestFailed, w1)
      | Some dk \<Rightarrow>
          (case remaining dk of
             [] \<Rightarrow> (Inr [], w1)
           | c # rest \<Rightarrow>
               (Inr [c], w1\<lparr>decks := (decks w)(d \<mapsto> dk\<lparr>remaining := rest, drawn := c # drawn dk\<rparr>)\<rparr>)))"

text \<open>\<open>GET /<deckId>/pile/<hand>/add/?cards=<code>\<close>: the drawn card of that code.\<close>

definition addToPile :: "string \<Rightarrow> string \<Rightarrow> string \<Rightarrow> world \<Rightarrow> (error + unit) \<times> world" where
  "addToPile d hand cd w =
     (let w1 = w\<lparr>requests := requests w @ [PileAdd d hand cd]\<rparr> in
      case decks w d of
        None \<Rightarrow> (Inl RequestFailed, w1)
      | Some dk \<Rightarrow>
          (case find (\<lambda>c. code c = cd) (drawn dk) of
             None \<Rightarrow> (Inl RequestFailed, w1)
           | Some c \<Rightarrow>
               (Inr (),
                w1\<lparr>decks := (decks w)(d \<mapsto> dk\<lparr>drawn := remove1 c (drawn dk),
                       piles := (piles dk)(hand \<mapsto>
                          (case piles dk hand of None \<Rightarrow> [] | Some cs \<Rightarrow> cs) @ [c])\<rparr>)\<rparr>)))"

text \<open>\<open>GET /<deckId>/pile/<hand>/list\<close>; the value is \<open>piles[hand]\<close> of the answer.\<close>

definition listPile :: "string \<Rightarrow> string \<Rightarrow> world \<Rightarrow> (error + pile) \<times> world" where
  "listPile d hand w =
     (let w1 = w\<lparr>requests := requests w @ [PileList d hand]\<rparr> in
      case decks w d of
        None \<Rightarrow> (Inl RequestFailed, w1)
      | Some dk \<Rightarrow>
          (case piles dk hand of
             None \<Rightarrow> (Inl RequestFailed, w1)
           | Some cs \<Rightarrow> (Inr \<lparr>cards = cs\<rparr>, w1)))"

subsection \<open>The table of games\<close>

text \<open>
  \<open>SELECT gameName, deckId, gamesWon, gamesLost FROM games WHERE gameName = ?\<close>; a name
  matches the row of exactly that name.
\<close>

definition selectGame :: "string \<Rightarrow> world \<Rightarrow> (error + row list) \<times> world" where
  "selectGame name w = (Inr (case games w name of None \<Rightarrow> [] | Some r \<Rightarrow> [r]), w)"

text \<open>
  \<open>INSERT INTO games (gameName, deckId) VALUES (?, ?)\<close>; both counters take the column
  default 0, and a second row of the same name is refused.
\<close>

definition insertGame :: "string \<Rightarrow> string \<Rightarrow> world \<Rightarrow> (error + unit) \<times> world" where
  "insertGame name d w =
     (case games w name of
        Some r \<Rightarrow> (Inl RequestFailed, w)
      | None \<Rightarrow>
          (Inr (), w\<lparr>games := (games w)(name \<mapsto>
                        \<lparr>gameName = name, deckId = d, gamesWon = 0, gamesLost = 0\<rparr>)\<rparr>))"

text \<open>
  \<open>UPDATE games SET deckId = ?, gamesWon = gamesWon + 1 WHERE gameName = ?\<close> and the same
  with \<open>gamesLost\<close>: the one or the other statement, as \<open>won\<close> says. Where no row has the
  name, nothing is updated and nothing fails.
\<close>

definition updateGame :: "bool \<Rightarrow> string \<Rightarrow> string \<Rightarrow> world \<Rightarrow> (error + unit) \<times> world" where
  "updateGame won d name w =
     (case games w name of
        None \<Rightarrow> (Inr (), w)
      | Some r \<Rightarrow>
          (Inr (), w\<lparr>games := (games w)(name \<mapsto>
                        (if won then r\<lparr>deckId := d, gamesWon := gamesWon r + 1\<rparr>
                         else r\<lparr>deckId := d, gamesLost := gamesLost r + 1\<rparr>))\<rparr>))"

subsection \<open>The routes\<close>

text \<open>The JSON a route answers with: the row, the two piles and an empty \<open>scores\<close>.\<close>

record game = row +
  dealerPile :: pile
  playerPile :: pile
  scores :: "string \<rightharpoonup> number"

definition drawCardToHand :: "string \<Rightarrow> string \<Rightarrow> world \<Rightarrow> (error + unit) \<times> world" where
  "drawCardToHand d hand =
     await (drawOne d) (\<lambda>drawResponse.
       case drawResponse of
         [] \<Rightarrow> reject TypeError
       | c # _ \<Rightarrow> addToPile d hand (code c))"

definition getPileData :: "string \<Rightarrow> string \<Rightarrow> world \<Rightarrow> (error + pile) \<times> world" where
  "getPileData d hand = listPile d hand"

text \<open>\<open>GET /game/:gameName/getOrCreate\<close>\<close>

definition route_getOrCreate ::
  "string \<Rightarrow> string \<times> card list \<Rightarrow> world \<Rightarrow> (error + game) \<times> world" where
  "route_getOrCreate name fresh =
     await (selectGame name) (\<lambda>response.
       case response of
         [] \<Rightarrow>
           await (newShuffle fresh) (\<lambda>d.
           await (insertGame name d) (\<lambda>_.
           await (drawCardToHand d ''player'') (\<lambda>_.
           await (drawCardToHand d ''dealer'') (\<lambda>_.
           await (drawCardToHand d ''player'') (\<lambda>_.
           await (drawCardToHand d ''dealer'') (\<lambda>_.
           await (getPileData d ''player'') (\<lambda>playerPileData.
           await (getPileData d ''dealer'') (\<lambda>dealerPileData.
           resolve \<lparr>gameName = name, deckId = d, gamesWon = 0, gamesLost = 0,
                    dealerPile = dealerPileData, playerPile = playerPileData,
                    scores = Map.empty\<rparr>))))))))
       | r # _ \<Rightarrow>
           await (getPileData (deckId r) ''player'') (\<lambda>playerPileData.
           await (getPileData (deckId r) ''dealer'') (\<lambda>dealerPileData.
           resolve \<lparr>gameName = gameName r, deckId = deckId r, gamesWon = gamesWon r,
                    gamesLost = gamesLost r,
                    dealerPile = dealerPileData, playerPile = playerPileData,
                    scores = Map.empty\<rparr>)))"

text \<open>\<open>GET /game/:deckId/draw/:player\<close>\<close>

definition route_draw :: "string \<Rightarrow> string \<Rightarrow> world \<Rightarrow> (error + pile) \<times> world" where
  "route_draw d player =
     await (drawCardToHand d player) (\<lambda>_. getPileData d player)"

text \<open>\<open>GET /game/:gameName/endGame/:winner\<close>\<close>

definition route_endGame ::
  "string \<Rightarrow> string \<Rightarrow> string \<times> card list \<Rightarrow> world \<Rightarrow> (error + game) \<times> world" where
  "route_endGame name winner fresh =
     await (newShuffle fresh) (\<lambda>d.
     await (updateGame (winner = ''player'') d name) (\<lambda>_.
     await (drawCardToHand d ''player'') (\<lambda>_.
     await (drawCardToHand d ''dealer'') (\<lambda>_.
     await (drawCardToHand d ''player'') (\<lambda>_.
     await (drawCardToHand d ''dealer'') (\<lambda>_.
     await (getPileData d ''player'') (\<lambda>playerPileData.
     await (getPileData d ''dealer'') (\<lambda>dealerPileData.
     await (selectGame name) (\<lambda>response.
       case response of
         [] \<Rightarrow> reject TypeError
       | r # _ \<Rightarrow>
           resolve \<lparr>gameName = name, deckId = d, gamesWon = gamesWon r,
                    gamesLost = gamesLost r,
                    dealerPile = dealerPileData, playerPile = playerPileData,
                    scores = Map.empty\<rparr>)))))))))"

section \<open>The client\<close>

definition DEALER :: string where
  "DEALER = ''dealer''"

definition PLAYER :: string where
  "PLAYER = ''player''"

definition scorePlayer :: "game \<Rightarrow> string \<Rightarrow> number" where
  "scorePlayer game player =
     score (if player = PLAYER then cards (playerPile game) else cards (dealerPile game))"

text \<open>
  \<open>game.scores[who]\<close> where a Number is expected: a key that is not there reads as
  \<open>undefined\<close>, which converts to NaN.
\<close>

definition scoreOf :: "game \<Rightarrow> string \<Rightarrow> number" where
  "scoreOf game who = (case scores game who of None \<Rightarrow> NaN | Some n \<Rightarrow> n)"

definition initGame :: "game \<Rightarrow> game" where
  "initGame game =
     (let g1 = game\<lparr>scores := (scores game)(PLAYER \<mapsto> scorePlayer game PLAYER)\<rparr>
      in g1\<lparr>scores := (scores g1)(DEALER \<mapsto> scorePlayer g1 DEALER)\<rparr>)"

text \<open>\<open>createOrJoinGame\<close>, with the name typed into the input field.\<close>

definition createOrJoinGame ::
  "string \<Rightarrow> string \<times> card list \<Rightarrow> world \<Rightarrow> (error + game) \<times> world" where
  "createOrJoinGame name fresh =
     await (route_getOrCreate name fresh) (\<lambda>gameData. resolve (initGame gameData))"

definition endGame ::
  "string \<Rightarrow> string \<times> card list \<Rightarrow> game \<Rightarrow> world \<Rightarrow> (error + game) \<times> world" where
  "endGame gameWinner fresh game =
     await (route_endGame (gameName game) gameWinner fresh) (\<lambda>gameData.
       resolve (initGame gameData))"

text \<open>
  The \<open>while\<close> loop of \<open>stand\<close>. Every round of it that does not fail takes a card from
  the deck, so it ends.
\<close>

function dealerLoop :: "game \<Rightarrow> world \<Rightarrow> (error + game) \<times> world" where
  "dealerLoop game w =
     (if lt (scoreOf game DEALER) (Finite 17) then
        (case route_draw (deckId game) ''dealer'' w of
           (Inl e, w') \<Rightarrow> (Inl e, w')
         | (Inr pileData, w') \<Rightarrow>
             (let g1 = game\<lparr>dealerPile := pileData\<rparr>;
                  g2 = g1\<lparr>scores := (scores g1)(DEALER \<mapsto> scorePlayer g1 DEALER)\<rparr>
              in dealerLoop g2 w'))
      else (Inr game, w))"
  by pat_completeness auto
termination
  by (relation "measure (\<lambda>(game, w).
        case decks w (deckId game) of None \<Rightarrow> 0 | Some dk \<Rightarrow> length (remaining dk))")
     (auto simp: route_draw_def drawCardToHand_def getPileData_def listPile_def addToPile_def
        drawOne_def await_def reject_def Let_def
        split: option.splits list.splits sum.splits prod.splits if_splits)

declare dealerLoop.simps [simp del]

text \<open>
  \<open>stand\<close>: the loop, then the callback of \<open>setTimeout\<close>, which declares the winner by
  the role it hands to \<open>endGame\<close>. \<open>stand\<close> returns nothing; the value here is the \<open>game\<close>
  it leaves behind.
\<close>

definition stand ::
  "string \<times> card list \<Rightarrow> game \<Rightarrow> world \<Rightarrow> (error + game) \<times> world" where
  "stand fresh game =
     await (dealerLoop game) (\<lambda>g.
       if gt (scoreOf g DEALER) (Finite 21) \<or> lt (scoreOf g DEALER) (scoreOf g PLAYER)
       then endGame PLAYER fresh g
       else endGame DEALER fresh g)"

section \<open>The specification's reading of the score\<close>

text \<open>
  The data model of the specification: a card's value is one of 2 to 10, JACK, QUEEN, KING
  and ACE, the ten being transmitted as 0. \<open>rankOf\<close> reads the transmitted string; a pile
  all of whose cards have a rank is a pile of the data model.
\<close>

datatype rank = Number nat | Jack | Queen | King | Ace

definition rankOf :: "string \<Rightarrow> rank option" where
  "rankOf v =
     map_of [(''2'', Number 2), (''3'', Number 3), (''4'', Number 4), (''5'', Number 5),
             (''6'', Number 6), (''7'', Number 7), (''8'', Number 8), (''9'', Number 9),
             (''10'', Number 10), (''0'', Number 10),
             (''JACK'', Jack), (''QUEEN'', Queen), (''KING'', King), (''ACE'', Ace)] v"

fun spec_add :: "rank \<Rightarrow> int \<times> nat \<Rightarrow> int \<times> nat" where
  "spec_add (Number n) (tot, aceCount) = (tot + int n, aceCount)"
| "spec_add Jack (tot, aceCount) = (tot + 10, aceCount)"
| "spec_add Queen (tot, aceCount) = (tot + 10, aceCount)"
| "spec_add King (tot, aceCount) = (tot + 10, aceCount)"
| "spec_add Ace (tot, aceCount) = (tot + 11, aceCount + 1)"

function spec_convert :: "int \<Rightarrow> nat \<Rightarrow> int" where
  "spec_convert tot aceCount =
     (if tot > 21 \<and> aceCount > 0 then spec_convert (tot - 10) (aceCount - 1) else tot)"
  by pat_completeness auto
termination
  by (relation "measure snd") auto

declare spec_convert.simps [simp del]

definition spec_score :: "rank list \<Rightarrow> int" where
  "spec_score ranks = (case fold spec_add ranks (0, 0) of (tot, aceCount) \<Rightarrow> spec_convert tot aceCount)"


text \<open>
  Every card but the ace has a fixed value; an ace counts 1 or 11. \<open>totals\<close> is the set of
  totals a pile can reach, \<open>hardValue\<close> the value with every ace at 1.
\<close>

fun pointValue :: "rank \<Rightarrow> int" where
  "pointValue (Number n) = int n"
| "pointValue Jack = 10"
| "pointValue Queen = 10"
| "pointValue King = 10"
| "pointValue Ace = 11"

definition hardValue :: "rank \<Rightarrow> int" where
  "hardValue r = (if r = Ace then 1 else pointValue r)"

fun totals :: "rank list \<Rightarrow> int set" where
  "totals [] = {0}"
| "totals (r # rs) =
     (if r = Ace then (\<lambda>t. t + 1) ` totals rs \<union> (\<lambda>t. t + 11) ` totals rs
      else (\<lambda>t. t + pointValue r) ` totals rs)"



section \<open>What the claims about a round speak of\<close>

text \<open>
  The requests an opening deal sends to the Card Source, in their order: the new deck, four
  times a draw and the drawn card put in a pile, player first and dealer second, then the
  two piles listed.
\<close>

definition openingRequests :: "string \<Rightarrow> card \<Rightarrow> card \<Rightarrow> card \<Rightarrow> card \<Rightarrow> request list" where
  "openingRequests d c1 c2 c3 c4 =
     [NewShuffle,
      Draw d, PileAdd d ''player'' (code c1),
      Draw d, PileAdd d ''dealer'' (code c2),
      Draw d, PileAdd d ''player'' (code c3),
      Draw d, PileAdd d ''dealer'' (code c4),
      PileList d ''player'', PileList d ''dealer'']"


section \<open>Example cards\<close>

text \<open>Cards as the Card Source lists them, and one card that is none of the data model.\<close>

definition aceOfSpades :: card where
  "aceOfSpades = \<lparr>code = ''AS'', cardValue = ''ACE'', suit = ''SPADES''\<rparr>"

definition aceOfHearts :: card where
  "aceOfHearts = \<lparr>code = ''AH'', cardValue = ''ACE'', suit = ''HEARTS''\<rparr>"

definition kingOfHearts :: card where
  "kingOfHearts = \<lparr>code = ''KH'', cardValue = ''KING'', suit = ''HEARTS''\<rparr>"

definition queenOfClubs :: card where
  "queenOfClubs = \<lparr>code = ''QC'', cardValue = ''QUEEN'', suit = ''CLUBS''\<rparr>"

definition tenOfSpades :: card where
  "tenOfSpades = \<lparr>code = ''0S'', cardValue = ''10'', suit = ''SPADES''\<rparr>"

definition nineOfDiamonds :: card where
  "nineOfDiamonds = \<lparr>code = ''9D'', cardValue = ''9'', suit = ''DIAMONDS''\<rparr>"

definition sevenOfClubs :: card where
  "sevenOfClubs = \<lparr>code = ''7C'', cardValue = ''7'', suit = ''CLUBS''\<rparr>"

definition fiveOfClubs :: card where
  "fiveOfClubs = \<lparr>code = ''5C'', cardValue = ''5'', suit = ''CLUBS''\<rparr>"

definition joker :: card where
  "joker = \<lparr>code = ''X1'', cardValue = ''JOKER'', suit = ''BLACK''\<rparr>"

text \<open>
  A table in the middle of a round: the game \<open>g\<close> on the deck \<open>d1\<close>, the player on a king
  and a nine, the dealer on a seven and a five, a ten and an ace left in the deck; and the
  deck the Card Source will shuffle next.
\<close>

definition tableWorld :: world where
  "tableWorld =
     \<lparr>games = [''g'' \<mapsto> \<lparr>gameName = ''g'', deckId = ''d1'', gamesWon = 2, gamesLost = 3\<rparr>],
      decks = [''d1'' \<mapsto>
                 \<lparr>remaining = [tenOfSpades, aceOfSpades], drawn = [],
                  piles = [''player'' \<mapsto> [kingOfHearts, nineOfDiamonds],
                           ''dealer'' \<mapsto> [sevenOfClubs, fiveOfClubs]]\<rparr>],
      requests = []\<rparr>"

definition tableGame :: game where
  "tableGame =
     initGame \<lparr>gameName = ''g'', deckId = ''d1'', gamesWon = 2, gamesLost = 3,
               dealerPile = \<lparr>cards = [sevenOfClubs, fiveOfClubs]\<rparr>,
               playerPile = \<lparr>cards = [kingOfHearts, nineOfDiamonds]\<rparr>,
               scores = Map.empty\<rparr>"

definition nextDeck :: "string \<times> card list" where
  "nextDeck = (''d2'', [queenOfClubs, aceOfHearts, fiveOfClubs, sevenOfClubs, tenOfSpades])"

lemmas card_defs = aceOfSpades_def aceOfHearts_def kingOfHearts_def queenOfClubs_def
  tenOfSpades_def nineOfDiamonds_def sevenOfClubs_def fiveOfClubs_def joker_def

section \<open>The score of a pile of the data model\<close>

lemmas js_defs = scoreCard_def isNaN_def looseEqualsZero_def toNumber_def parseInt_def trim_def
  trimStart_def isStrWhiteSpaceChar_def strUnsignedDecimalLiteral_def isRadixDigit_def
  digitValue_def digitsValue_def scale10_def

lemma scoreCard_ranked:
  assumes "rankOf (cardValue c) = Some r"
  shows "scoreCard c (Finite (of_int t), a) = (case spec_add r (t, a) of (t', a') \<Rightarrow> (Finite (of_int t'), a'))"
  using assms unfolding rankOf_def
  by (auto split: if_splits simp: js_defs)


lemma fold_scoreCard_ranked:
  "map (\<lambda>c. rankOf (cardValue c)) pile = map Some ranks \<Longrightarrow>
   fold scoreCard pile (Finite (of_int t), a) =
     (case fold spec_add ranks (t, a) of (t', a') \<Rightarrow> (Finite (of_int t'), a'))"
proof (induction pile arbitrary: ranks t a)
  case Nil
  then show ?case by simp
next
  case (Cons c pile)
  from Cons.prems obtain r rs where ranks: "ranks = r # rs"
    and r: "rankOf (cardValue c) = Some r"
    and rs: "map (\<lambda>c. rankOf (cardValue c)) pile = map Some rs"
    by (cases ranks) auto
  obtain t1 a1 where step: "spec_add r (t, a) = (t1, a1)"
    by (cases "spec_add r (t, a)")
  have "scoreCard c (Finite (of_int t), a) = (Finite (of_int t1), a1)"
    using scoreCard_ranked [OF r, of t a] step by simp
  then show ?case
    using Cons.IH [OF rs, of t1 a1] step ranks by simp
qed

lemma aceLoop_int: "aceLoop (Finite (of_int t)) a = Finite (of_int (spec_convert t a))"
proof (induction t a rule: spec_convert.induct)
  case (1 t a)
  show ?case
  proof (cases "t > 21 \<and> a > 0")
    case True
    then have "aceLoop (Finite (of_int t)) a = aceLoop (Finite (of_int (t - 10))) (a - 1)"
      by (subst aceLoop.simps) (simp add: gt_def sub_def)
    also have "\<dots> = Finite (of_int (spec_convert (t - 10) (a - 1)))"
      using "1.IH" True by simp
    also have "spec_convert (t - 10) (a - 1) = spec_convert t a"
      using True by (subst (2) spec_convert.simps) simp
    finally show ?thesis .
  next
    case False
    then have "aceLoop (Finite (of_int t)) a = Finite (of_int t)"
      by (subst aceLoop.simps) (auto simp: gt_def)
    moreover have "spec_convert t a = t"
      using False by (subst spec_convert.simps) auto
    ultimately show ?thesis by simp
  qed
qed

lemma score_ranked:
  "map (\<lambda>c. rankOf (cardValue c)) pile = map Some ranks \<Longrightarrow>
   score pile = (case fold spec_add ranks (0, 0) of (t, a) \<Rightarrow> Finite (of_int (spec_convert t a)))"
  using fold_scoreCard_ranked [of pile ranks 0 0]
  by (simp add: score_def aceLoop_int split: prod.splits)

lemma hardValue_simps:
  "hardValue Ace = 1" "r \<noteq> Ace \<Longrightarrow> hardValue r = pointValue r"
  by (simp_all add: hardValue_def)

lemma fold_spec_add:
  "fold spec_add ranks (t, a) =
     (t + sum_list (map hardValue ranks) + 10 * int (count_list ranks Ace), a + count_list ranks Ace)"
proof (induction ranks arbitrary: t a)
  case Nil
  then show ?case by simp
next
  case (Cons r rs)
  show ?case by (cases r) (simp_all add: Cons.IH hardValue_simps)
qed

lemma spec_convert_shape:
  "\<exists>k\<le>a. spec_convert t a = t - 10 * int k
       \<and> (spec_convert t a \<le> 21 \<or> k = a)
       \<and> (0 < k \<longrightarrow> 11 < spec_convert t a)"
proof (induction t a rule: spec_convert.induct)
  case (1 t a)
  show ?case
  proof (cases "t > 21 \<and> a > 0")
    case True
    then have eq: "spec_convert t a = spec_convert (t - 10) (a - 1)"
      by (subst spec_convert.simps) simp
    from "1.IH" [OF True] obtain k where kk: "k \<le> a - 1 \<and>
      spec_convert (t - 10) (a - 1) = t - 10 - 10 * int k \<and>
      (spec_convert (t - 10) (a - 1) \<le> 21 \<or> k = a - 1) \<and>
      (0 < k \<longrightarrow> 11 < spec_convert (t - 10) (a - 1))" ..
    then have k: "k \<le> a - 1"
      "spec_convert (t - 10) (a - 1) = t - 10 - 10 * int k"
      "spec_convert (t - 10) (a - 1) \<le> 21 \<or> k = a - 1"
      "0 < k \<longrightarrow> 11 < spec_convert (t - 10) (a - 1)"
      by (rule conjunct1, rule conjunct2 [THEN conjunct1],
          rule conjunct2 [THEN conjunct2, THEN conjunct1],
          rule conjunct2 [THEN conjunct2, THEN conjunct2])
    show ?thesis
    proof (intro exI [of _ "Suc k"] conjI)
      show "Suc k \<le> a" using k(1) True by linarith
      show "spec_convert t a = t - 10 * int (Suc k)" using k(2) eq by simp
      show "spec_convert t a \<le> 21 \<or> Suc k = a" using k(1,3) eq True by auto
      show "0 < Suc k \<longrightarrow> 11 < spec_convert t a"
      proof (cases "k = 0")
        case True
        then show ?thesis using k(2) eq \<open>t > 21 \<and> a > 0\<close> by simp
      next
        case False
        then show ?thesis using k(4) eq by simp
      qed
    qed
  next
    case False
    then have "spec_convert t a = t"
      by (subst spec_convert.simps) auto
    with False show ?thesis
      by (intro exI [of _ 0]) auto
  qed
qed

lemma totals_sound:
  "u \<in> totals ranks \<Longrightarrow>
   \<exists>k\<le>count_list ranks Ace. u = sum_list (map hardValue ranks) + 10 * int k"
proof (induction ranks arbitrary: u)
  case Nil
  then show ?case by simp
next
  case (Cons r rs)
  show ?case
  proof (cases "r = Ace")
    case True
    with Cons.prems consider v where "v \<in> totals rs" "u = v + 1"
      | v where "v \<in> totals rs" "u = v + 11"
      by auto
    then show ?thesis
    proof cases
      case 1
      from Cons.IH [OF 1(1)] obtain k where "k \<le> count_list rs Ace"
        "v = sum_list (map hardValue rs) + 10 * int k" by blast
      then show ?thesis using 1(2) True
        by (intro exI [of _ k]) (simp add: hardValue_simps)
    next
      case 2
      from Cons.IH [OF 2(1)] obtain k where "k \<le> count_list rs Ace"
        "v = sum_list (map hardValue rs) + 10 * int k" by blast
      then show ?thesis using 2(2) True
        by (intro exI [of _ "Suc k"]) (simp add: hardValue_simps)
    qed
  next
    case False
    with Cons.prems obtain v where v: "v \<in> totals rs" "u = v + pointValue r"
      by auto
    from Cons.IH [OF v(1)] obtain k where "k \<le> count_list rs Ace"
      "v = sum_list (map hardValue rs) + 10 * int k" by blast
    then show ?thesis using v(2) False
      by (intro exI [of _ k]) (simp add: hardValue_simps)
  qed
qed

lemma totals_Ace:
  "totals (Ace # rs) = (\<lambda>t. t + 1) ` totals rs \<union> (\<lambda>t. t + 11) ` totals rs"
  by simp

lemma totals_other:
  "r \<noteq> Ace \<Longrightarrow> totals (r # rs) = (\<lambda>t. t + pointValue r) ` totals rs"
  by simp

lemma totals_complete:
  "k \<le> count_list ranks Ace \<Longrightarrow> sum_list (map hardValue ranks) + 10 * int k \<in> totals ranks"
proof (induction ranks arbitrary: k)
  case Nil
  then show ?case by simp
next
  case (Cons r rs)
  show ?case
  proof (cases "r = Ace")
    case True
    show ?thesis
    proof (cases k)
      case 0
      have "sum_list (map hardValue rs) + 10 * int 0 \<in> totals rs"
        by (rule Cons.IH) simp
      then have "(sum_list (map hardValue rs) + 10 * int 0) + 1 \<in> (\<lambda>t. t + 1) ` totals rs"
        by (rule imageI)
      then have mem: "(sum_list (map hardValue rs) + 10 * int 0) + 1 \<in> totals (r # rs)"
        unfolding True totals_Ace by (rule UnI1)
      have eq: "sum_list (map hardValue (r # rs)) + 10 * int k
                = (sum_list (map hardValue rs) + 10 * int 0) + 1"
        using True 0 by (simp add: hardValue_simps)
      show ?thesis unfolding eq by (rule mem)
    next
      case (Suc j)
      with Cons.prems True have "j \<le> count_list rs Ace" by simp
      from Cons.IH [OF this] have "sum_list (map hardValue rs) + 10 * int j \<in> totals rs" .
      then have "(sum_list (map hardValue rs) + 10 * int j) + 11 \<in> (\<lambda>t. t + 11) ` totals rs"
        by (rule imageI)
      then have mem: "(sum_list (map hardValue rs) + 10 * int j) + 11 \<in> totals (r # rs)"
        unfolding True totals_Ace by (rule UnI2)
      have eq: "sum_list (map hardValue (r # rs)) + 10 * int k
                = (sum_list (map hardValue rs) + 10 * int j) + 11"
        using True Suc by (simp add: hardValue_simps)
      show ?thesis unfolding eq by (rule mem)
    qed
  next
    case False
    with Cons.prems have "k \<le> count_list rs Ace" by simp
    from Cons.IH [OF this] have "sum_list (map hardValue rs) + 10 * int k \<in> totals rs" .
    then have "(sum_list (map hardValue rs) + 10 * int k) + pointValue r
                 \<in> (\<lambda>t. t + pointValue r) ` totals rs"
      by (rule imageI)
    then have mem: "(sum_list (map hardValue rs) + 10 * int k) + pointValue r \<in> totals (r # rs)"
      unfolding totals_other [OF False] .
    have eq: "sum_list (map hardValue (r # rs)) + 10 * int k
              = (sum_list (map hardValue rs) + 10 * int k) + pointValue r"
      using False by (simp add: hardValue_simps)
    show ?thesis unfolding eq by (rule mem)
  qed
qed



lemma sum_list_mset_cong:
  fixes f :: "'a \<Rightarrow> int"
  assumes "mset xs = mset ys"
  shows "sum_list (map f xs) = sum_list (map f ys)"
proof -
  have "mset (map f xs) = mset (map f ys)"
    using assms by simp
  then have "sum_mset (mset (map f xs)) = sum_mset (mset (map f ys))"
    by (simp only:)
  then show ?thesis
    by (simp only: sum_mset_sum_list)
qed

lemma count_list_mset_cong:
  assumes "mset xs = mset ys"
  shows "count_list xs x = count_list ys x"
proof -
  have "count (mset xs) x = count (mset ys) x"
    using assms by (simp only:)
  then show ?thesis
    by (simp only: count_mset)
qed

lemma ranked_ex:
  "\<forall>c\<in>set pile. rankOf (cardValue c) \<noteq> None \<Longrightarrow>
   \<exists>ranks. map (\<lambda>c. rankOf (cardValue c)) pile = map Some ranks"
proof (induction pile)
  case Nil
  then show ?case by simp
next
  case (Cons c pile)
  then obtain rs where "map (\<lambda>c. rankOf (cardValue c)) pile = map Some rs" by auto
  moreover from Cons.prems obtain r where "rankOf (cardValue c) = Some r" by auto
  ultimately have "map (\<lambda>c. rankOf (cardValue c)) (c # pile) = map Some (r # rs)" by simp
  then show ?case by (rule exI)
qed

lemma ranked_all:
  "map (\<lambda>c. rankOf (cardValue c)) pile = map Some ranks \<Longrightarrow>
   \<forall>c\<in>set pile. rankOf (cardValue c) \<noteq> None"
proof (induction pile arbitrary: ranks)
  case Nil
  then show ?case by simp
next
  case (Cons c pile)
  then obtain r rs where "ranks = r # rs" "rankOf (cardValue c) = Some r"
    "map (\<lambda>c. rankOf (cardValue c)) pile = map Some rs"
    by (cases ranks) simp_all
  with Cons.IH show ?case by simp
qed

lemma score_value:
  assumes "map (\<lambda>c. rankOf (cardValue c)) pile = map Some ranks"
  shows "score pile = Finite (of_int (spec_convert
           (sum_list (map hardValue ranks) + 10 * int (count_list ranks Ace))
           (count_list ranks Ace)))"
  using score_ranked [OF assms] by (simp add: fold_spec_add)

lemma rankOf_hardValue:
  "rankOf v = Some r \<Longrightarrow> 1 \<le> hardValue r \<and> hardValue r \<le> 10"
  unfolding rankOf_def by (auto split: if_splits simp: hardValue_def)

lemmas eval_defs = js_defs score_def aceLoop.simps gt_def sub_def ge_def rankOf_def

section \<open>The claims about the score\<close>

text \<open>
  C1. On every pile of the data model, \<open>scorePlayer\<close> returns what the algorithm of the
  specification returns: the cards are scanned in order, a numeric rank adds its face value
  (the ten as \<open>10\<close> or as \<open>0\<close>), JACK, QUEEN and KING add 10, ACE adds 11 and counts an ace;
  then, while the total is above 21 and an ace is left, 10 is taken off and the count goes
  down by one. \<open>spec_score\<close> is that algorithm, written from the specification.
\<close>

theorem score_refines_spec:
  assumes "map (\<lambda>c. rankOf (cardValue c)) pile = map Some ranks"
  shows "score pile = Finite (of_int (spec_score ranks))"
  using score_ranked [OF assms] by (simp add: spec_score_def split: prod.splits)

theorem score_refines_spec_witness:
  "map (\<lambda>c. rankOf (cardValue c)) [kingOfHearts, queenOfClubs, aceOfSpades]
     = map Some [King, Queen, Ace]
   \<and> spec_score [King, Queen, Ace] = 21
   \<and> score [kingOfHearts, queenOfClubs, aceOfSpades] = Finite 21"
proof -
  have h: "map (\<lambda>c. rankOf (cardValue c)) [kingOfHearts, queenOfClubs, aceOfSpades]
             = map Some [King, Queen, Ace]"
    by (simp add: rankOf_def card_defs)
  have v: "spec_score [King, Queen, Ace] = 21"
    by (simp add: spec_score_def spec_convert.simps)
  show ?thesis
    using score_refines_spec [OF h] h v by simp
qed

text \<open>
  C2. On every pile of the data model, with each ace read as 1 or as 11 and every other
  card at its fixed value, \<open>scorePlayer\<close> returns a total the pile can reach: the highest
  one that is at most 21 when there is one, and otherwise the lowest of all, every ace at 1.
\<close>

theorem score_highest_total:
  assumes "map (\<lambda>c. rankOf (cardValue c)) pile = map Some ranks"
  shows "\<exists>t\<in>totals ranks. score pile = Finite (of_int t) \<and>
           (if \<exists>u\<in>totals ranks. u \<le> 21
            then t \<le> 21 \<and> (\<forall>u\<in>totals ranks. u \<le> 21 \<longrightarrow> u \<le> t)
            else t = sum_list (map hardValue ranks) \<and> (\<forall>u\<in>totals ranks. t \<le> u))"
proof -
  define H where "H = sum_list (map hardValue ranks)"
  define n where "n = count_list ranks Ace"
  define t where "t = spec_convert (H + 10 * int n) n"
  have sc: "score pile = Finite (of_int t)"
    using score_value [OF assms] by (simp add: t_def H_def n_def)
  obtain k where k: "k \<le> n \<and> t = H + 10 * int n - 10 * int k
      \<and> (t \<le> 21 \<or> k = n) \<and> (0 < k \<longrightarrow> 11 < t)"
    using spec_convert_shape [of n "H + 10 * int n"] unfolding t_def by blast
  have tk: "t = H + 10 * int (n - k)"
    using k by simp
  have mem: "t \<in> totals ranks"
    unfolding tk H_def by (rule totals_complete) (simp add: n_def)
  have shape: "\<exists>j\<le>n. u = H + 10 * int j" if "u \<in> totals ranks" for u
    using totals_sound [OF that] by (simp add: H_def n_def)
  show ?thesis
  proof (cases "\<exists>u\<in>totals ranks. u \<le> 21")
    case True
    then obtain u0 j0 where u0: "u0 \<le> 21" "j0 \<le> n" "u0 = H + 10 * int j0"
      using shape by blast
    have le: "t \<le> 21"
    proof (rule ccontr)
      assume "\<not> t \<le> 21"
      with k have "k = n" by blast
      with tk have "t = H" by simp
      with u0 \<open>\<not> t \<le> 21\<close> show False by simp
    qed
    have best: "u \<le> t" if "u \<in> totals ranks" "u \<le> 21" for u
    proof -
      from shape [OF that(1)] obtain j where j: "j \<le> n" "u = H + 10 * int j" by blast
      show ?thesis
      proof (cases "k = 0")
        case True
        with tk j show ?thesis by simp
      next
        case False
        with k have "11 < t" by blast
        with tk j that(2) have "int j < int (n - k) + 1" by linarith
        with tk j show ?thesis by simp
      qed
    qed
    from True mem sc le best show ?thesis by auto
  next
    case False
    with mem have "\<not> t \<le> 21" by blast
    with k have "k = n" by blast
    with tk have tH: "t = H" by simp
    have "t \<le> u" if "u \<in> totals ranks" for u
      using shape [OF that] tH by auto
    with False mem sc tH show ?thesis unfolding H_def by auto
  qed
qed

theorem score_highest_total_witness:
  "map (\<lambda>c. rankOf (cardValue c)) [aceOfSpades, aceOfHearts, nineOfDiamonds]
     = map Some [Ace, Ace, Number 9]
   \<and> totals [Ace, Ace, Number 9] = {11, 21, 31}
   \<and> score [aceOfSpades, aceOfHearts, nineOfDiamonds] = Finite 21"
proof -
  have h: "map (\<lambda>c. rankOf (cardValue c)) [aceOfSpades, aceOfHearts, nineOfDiamonds]
             = map Some [Ace, Ace, Number 9]"
    by (simp add: rankOf_def card_defs)
  have ts: "totals [Ace, Ace, Number 9] = {11, 21, 31}"
    by auto
  from score_highest_total [OF h] obtain t where
    t: "t \<in> {11, 21, 31}" "score [aceOfSpades, aceOfHearts, nineOfDiamonds] = Finite (of_int t)"
       "t \<le> 21" "\<forall>u\<in>{11, 21, 31}. u \<le> 21 \<longrightarrow> u \<le> t"
    unfolding ts by auto
  from t(1,3,4) have "t = 21" by auto
  with t(2) h ts show ?thesis by simp
qed

text \<open>
  C3. On every pile of the data model, \<open>scorePlayer\<close> returns the same total on every
  reordering of the pile: the score depends on the multiset of the cards only.
\<close>

theorem score_permutation_invariant:
  assumes "map (\<lambda>c. rankOf (cardValue c)) pile = map Some ranks"
      and "mset pile' = mset pile"
  shows "score pile' = score pile"
proof -
  have "\<forall>c\<in>set pile. rankOf (cardValue c) \<noteq> None"
    using assms(1) by (rule ranked_all)
  moreover have "set pile' = set pile"
    using assms(2) by (rule mset_eq_setD)
  ultimately have "\<forall>c\<in>set pile'. rankOf (cardValue c) \<noteq> None"
    by simp
  then obtain ranks' where r': "map (\<lambda>c. rankOf (cardValue c)) pile' = map Some ranks'"
    using ranked_ex by blast
  have "mset (map (\<lambda>c. rankOf (cardValue c)) pile') = mset (map (\<lambda>c. rankOf (cardValue c)) pile)"
    using assms(2) by simp
  then have "mset (map Some ranks') = mset (map Some ranks)"
    by (simp only: r' assms(1))
  then have "image_mset Some (mset ranks') = image_mset Some (mset ranks)"
    by simp
  then have m: "mset ranks' = mset ranks"
    by (rule injD [OF multiset.inj_map [OF inj_Some]])
  have "sum_list (map hardValue ranks') = sum_list (map hardValue ranks)"
    using m by (rule sum_list_mset_cong)
  moreover have "count_list ranks' Ace = count_list ranks Ace"
    using m by (rule count_list_mset_cong)
  ultimately show ?thesis
    by (simp only: score_value [OF assms(1)] score_value [OF r'])
qed

theorem score_permutation_invariant_witness:
  "map (\<lambda>c. rankOf (cardValue c)) [aceOfSpades, kingOfHearts, fiveOfClubs]
     = map Some [Ace, King, Number 5]
   \<and> mset [fiveOfClubs, aceOfSpades, kingOfHearts] = mset [aceOfSpades, kingOfHearts, fiveOfClubs]
   \<and> score [fiveOfClubs, aceOfSpades, kingOfHearts] = score [aceOfSpades, kingOfHearts, fiveOfClubs]"
proof -
  have h: "map (\<lambda>c. rankOf (cardValue c)) [aceOfSpades, kingOfHearts, fiveOfClubs]
             = map Some [Ace, King, Number 5]"
    by (simp add: rankOf_def card_defs)
  have m: "mset [fiveOfClubs, aceOfSpades, kingOfHearts]
             = mset [aceOfSpades, kingOfHearts, fiveOfClubs]"
    by simp
  show ?thesis
    using score_permutation_invariant [OF h m] h m by simp
qed

text \<open>
  C6, as stated, fails: a card added to a pile can lower its score. An ace and a king
  score 21; with a five added, the ace falls to 1 and the pile scores 16.
\<close>

theorem score_append_counterexample:
  "score [aceOfSpades, kingOfHearts] = Finite 21
   \<and> score ([aceOfSpades, kingOfHearts] @ [fiveOfClubs]) = Finite 16
   \<and> \<not> ge (score ([aceOfSpades, kingOfHearts] @ [fiveOfClubs])) (score [aceOfSpades, kingOfHearts])"
  by (simp add: card_defs eval_defs)

lemma spec_convert_eq:
  assumes "k \<le> a" and "t - 10 * int k \<le> 21 \<or> k = a" and "0 < k \<longrightarrow> 11 < t - 10 * int k"
  shows "spec_convert t a = t - 10 * int k"
proof -
  from spec_convert_shape [of a t] obtain j where j: "j \<le> a"
    "spec_convert t a = t - 10 * int j"
    "spec_convert t a \<le> 21 \<or> j = a"
    "0 < j \<longrightarrow> 11 < spec_convert t a"
    by blast
  have "j = k"
  proof (rule ccontr)
    assume "j \<noteq> k"
    then consider "j < k" | "k < j" by linarith
    then show False
    proof cases
      case 1
      with assms(1) j(3) have "t - 10 * int j \<le> 21" using j(2) by auto
      moreover from 1 assms(3) have "11 < t - 10 * int k" by simp
      ultimately show False using 1 by linarith
    next
      case 2
      with j(1) assms(2) have "t - 10 * int k \<le> 21" by auto
      moreover from 2 j(4) j(2) have "11 < t - 10 * int j" by simp
      ultimately show False using 2 by linarith
    qed
  qed
  with j(2) show ?thesis by simp
qed

text \<open>
  C6, amended. On a pile of the data model, a card of the data model added at the end does
  not lower the score, with one exception: the pile's score counts an ace as 11 (it is
  above the total with every ace at 1) and, with the value of the card added (an ace
  at 1), it would pass 21. Then that ace falls to 1, and the new score is the old one plus
  the card's value minus 10: lower for a card of value below 10, equal for a card of
  value 10.
\<close>

theorem score_append_exact:
  assumes "map (\<lambda>c. rankOf (cardValue c)) (pile @ [c]) = map Some (ranks @ [r])"
  shows "\<exists>s s'. score pile = Finite (of_int s) \<and> score (pile @ [c]) = Finite (of_int s')
           \<and> (s' < s \<longleftrightarrow>
                sum_list (map hardValue ranks) < s \<and> 21 < s + hardValue r \<and> hardValue r < 10)
           \<and> (sum_list (map hardValue ranks) < s \<and> 21 < s + hardValue r
                \<longrightarrow> s' = s + hardValue r - 10)"
proof -
  from assms have len: "length pile = length ranks"
    using map_eq_imp_length_eq [OF assms] by simp
  from assms len have pr: "map (\<lambda>c. rankOf (cardValue c)) pile = map Some ranks"
    and cr: "rankOf (cardValue c) = Some r"
    by simp_all
  define H where "H = sum_list (map hardValue ranks)"
  define n where "n = count_list ranks Ace"
  define h where "h = hardValue r"
  define m where "m = (if r = Ace then Suc n else n)"
  define s where "s = spec_convert (H + 10 * int n) n"
  define s' where "s' = spec_convert (H + h + 10 * int m) m"
  have hb: "1 \<le> h" "h \<le> 10"
    using rankOf_hardValue [OF cr] by (simp_all add: h_def)
  have ace: "r = Ace \<Longrightarrow> h = 1"
    by (simp add: h_def hardValue_simps)
  have sc: "score pile = Finite (of_int s)"
    using score_value [OF pr] by (simp add: s_def H_def n_def)
  have cnt: "count_list (ranks @ [r]) Ace = m"
    by (simp add: m_def n_def)
  have sm: "sum_list (map hardValue (ranks @ [r])) = H + h"
    by (simp add: H_def h_def)
  have sc': "score (pile @ [c]) = Finite (of_int s')"
    unfolding s'_def using score_value [OF assms] by (simp only: cnt sm)
  obtain k where k: "k \<le> n" "s = H + 10 * int n - 10 * int k"
      "s \<le> 21 \<or> k = n" "0 < k \<longrightarrow> 11 < s"
    using spec_convert_shape [of n "H + 10 * int n"] unfolding s_def by blast
  have val: "s' = H + h + 10 * int m - 10 * int j"
    if "j \<le> m" "H + h + 10 * int m - 10 * int j \<le> 21 \<or> j = m"
       "0 < j \<longrightarrow> 11 < H + h + 10 * int m - 10 * int j" for j
    unfolding s'_def using that by (rule spec_convert_eq)
  have drop: "s' = s + h - 10" if "H < s" "21 < s + h"
  proof -
    from that(1) k have kn: "k < n" and le: "s \<le> 21" by auto
    show ?thesis
    proof (cases "r = Ace")
      case True
      then have m: "m = Suc n" and h1: "h = 1" by (simp_all add: m_def ace)
      have "s' = H + h + 10 * int m - 10 * int (Suc (Suc k))"
        using kn k(2) le that(2) by (intro val) (auto simp: m h1)
      with k(2) m h1 show ?thesis by simp
    next
      case False
      then have m: "m = n" by (simp add: m_def)
      have "s' = H + h + 10 * int m - 10 * int (Suc k)"
        using kn k(2) le that(2) hb by (intro val) (auto simp: m)
      with k(2) m show ?thesis by simp
    qed
  qed
  have keep: "s \<le> s'" if "\<not> (H < s \<and> 21 < s + h)"
  proof (cases "H < s")
    case False
    with k have kn: "k = n" and sH: "s = H" by auto
    obtain j where j: "j \<le> m" "s' = H + h + 10 * int m - 10 * int j"
      using spec_convert_shape [of m "H + h + 10 * int m"] unfolding s'_def by blast
    with sH hb show ?thesis by linarith
  next
    case True
    with that have fit: "s + h \<le> 21" by simp
    from True k have kn: "k < n" by auto
    show ?thesis
    proof (cases "r = Ace")
      case False
      then have m: "m = n" by (simp add: m_def)
      have "s' = H + h + 10 * int m - 10 * int k"
        using kn k(2,4) fit hb by (intro val) (auto simp: m)
      with k(2) m hb show ?thesis by simp
    next
      case Ace: True
      then have m: "m = Suc n" and h1: "h = 1" by (simp_all add: m_def ace)
      show ?thesis
      proof (cases "s + 11 \<le> 21")
        case True
        have "s' = H + h + 10 * int m - 10 * int k"
          using kn k(2,4) True by (intro val) (auto simp: m h1)
        with k(2) m h1 show ?thesis by simp
      next
        case False
        have "s' = H + h + 10 * int m - 10 * int (Suc k)"
          using kn k(2) fit False by (intro val) (auto simp: m h1)
        with k(2) m h1 show ?thesis by simp
      qed
    qed
  qed
  have iff: "s' < s \<longleftrightarrow> H < s \<and> 21 < s + h \<and> h < 10"
  proof (cases "H < s \<and> 21 < s + h")
    case True
    with drop have "s' = s + h - 10" by simp
    with True show ?thesis by auto
  next
    case False
    with keep have "s \<le> s'" by simp
    with False show ?thesis by auto
  qed
  from sc sc' iff drop show ?thesis
    unfolding H_def h_def by blast
qed

theorem score_append_exact_witness:
  "map (\<lambda>c. rankOf (cardValue c)) ([aceOfSpades, fiveOfClubs] @ [fiveOfClubs])
     = map Some ([Ace, Number 5] @ [Number 5])
   \<and> score [aceOfSpades, fiveOfClubs] = Finite 16
   \<and> score ([aceOfSpades, fiveOfClubs] @ [fiveOfClubs]) = Finite 21
   \<and> map (\<lambda>c. rankOf (cardValue c)) ([aceOfSpades, kingOfHearts] @ [fiveOfClubs])
     = map Some ([Ace, King] @ [Number 5])
   \<and> score [aceOfSpades, kingOfHearts] = Finite 21
   \<and> score ([aceOfSpades, kingOfHearts] @ [fiveOfClubs]) = Finite (21 + 5 - 10)"
proof -
  have h1: "map (\<lambda>c. rankOf (cardValue c)) ([aceOfSpades, fiveOfClubs] @ [fiveOfClubs])
             = map Some ([Ace, Number 5] @ [Number 5])"
    by (simp add: rankOf_def card_defs)
  have h2: "map (\<lambda>c. rankOf (cardValue c)) ([aceOfSpades, kingOfHearts] @ [fiveOfClubs])
             = map Some ([Ace, King] @ [Number 5])"
    by (simp add: rankOf_def card_defs)
  have e: "score [aceOfSpades, fiveOfClubs] = Finite 16"
      "score ([aceOfSpades, fiveOfClubs] @ [fiveOfClubs]) = Finite 21"
      "score [aceOfSpades, kingOfHearts] = Finite 21"
    by (simp_all add: card_defs eval_defs)
  from score_append_exact [OF h2] e(3)
  have d: "score ([aceOfSpades, kingOfHearts] @ [fiveOfClubs]) = Finite (21 + 5 - 10)"
    by (auto simp: hardValue_simps)
  show ?thesis
    using score_append_exact [OF h1] h1 h2 e d by simp
qed

lemma scoreCard_zero:
  "scoreCard (c\<lparr>cardValue := ''0''\<rparr>) (s, a) = (add s (Finite 10), a)"
  by (simp add: js_defs)

lemma scoreCard_ten:
  "scoreCard (c\<lparr>cardValue := ''10''\<rparr>) (s, a) = (add s (Finite 10), a)"
  by (simp add: js_defs)

text \<open>
  C9. \<open>scorePlayer\<close> treats the value \<open>0\<close> as it treats the value \<open>10\<close>: a card of value 0,
  anywhere in any pile, can be replaced by the same card with value 10 (same suit, same
  code) and the score stays as it was; each of the two adds exactly 10 to the total and
  leaves the ace count alone.
\<close>

theorem score_zero_is_ten:
  "score (xs @ c\<lparr>cardValue := ''0''\<rparr> # ys) = score (xs @ c\<lparr>cardValue := ''10''\<rparr> # ys)
   \<and> scoreCard (c\<lparr>cardValue := ''0''\<rparr>) (s, a) = (add s (Finite 10), a)
   \<and> scoreCard (c\<lparr>cardValue := ''10''\<rparr>) (s, a) = (add s (Finite 10), a)"
proof -
  have "scoreCard (c\<lparr>cardValue := ''0''\<rparr>) = scoreCard (c\<lparr>cardValue := ''10''\<rparr>)"
    by (rule ext) (simp add: scoreCard_zero scoreCard_ten split_paired_all)
  then have "score (xs @ c\<lparr>cardValue := ''0''\<rparr> # ys) = score (xs @ c\<lparr>cardValue := ''10''\<rparr> # ys)"
    by (simp add: score_def)
  then show ?thesis
    by (simp add: scoreCard_zero scoreCard_ten)
qed

theorem score_zero_is_ten_witness:
  "score ([kingOfHearts] @ tenOfSpades\<lparr>cardValue := ''0''\<rparr> # [aceOfSpades])
     = score ([kingOfHearts] @ tenOfSpades\<lparr>cardValue := ''10''\<rparr> # [aceOfSpades])
   \<and> score ([kingOfHearts] @ tenOfSpades\<lparr>cardValue := ''0''\<rparr> # [aceOfSpades]) = Finite 21
   \<and> scoreCard (tenOfSpades\<lparr>cardValue := ''0''\<rparr>) (Finite 10, 0) = (Finite 20, 0)"
proof -
  have e: "score ([kingOfHearts] @ tenOfSpades\<lparr>cardValue := ''0''\<rparr> # [aceOfSpades]) = Finite 21"
    by (simp add: card_defs eval_defs)
  show ?thesis
    using score_zero_is_ten [of "[kingOfHearts]" tenOfSpades "[aceOfSpades]" "Finite 10" 0] e
    by simp
qed

text \<open>
  C10. A card whose value is not numeric (\<open>isNaN\<close> holds of it) and is none of the strings
  KING, QUEEN and JACK is counted as an ace, whatever the value is: it adds 11 to the total
  and 1 to the ace count, so the loop after the scan may take 10 off for it.
\<close>

theorem unrecognised_value_is_ace:
  assumes "isNaN (cardValue c)"
      and "cardValue c \<noteq> ''KING''" and "cardValue c \<noteq> ''QUEEN''" and "cardValue c \<noteq> ''JACK''"
  shows "scoreCard c (s, a) = (add s (Finite 11), a + 1)
         \<and> score (pile @ [c]) =
             (case fold scoreCard pile (Finite 0, 0) of
                (s0, a0) \<Rightarrow> aceLoop (add s0 (Finite 11)) (a0 + 1))"
proof -
  have step: "scoreCard c (s, a) = (add s (Finite 11), a + 1)" for s a
    using assms by (simp add: scoreCard_def)
  show ?thesis
    by (simp add: score_def step split: prod.splits)
qed

theorem unrecognised_value_is_ace_witness:
  "isNaN (cardValue joker)
   \<and> scoreCard joker (Finite 20, 0) = (Finite 31, 1)
   \<and> score ([kingOfHearts, queenOfClubs] @ [joker]) = Finite 21"
proof -
  have n: "isNaN (cardValue joker)"
    by (simp add: card_defs js_defs)
  have k: "cardValue joker \<noteq> ''KING''" "cardValue joker \<noteq> ''QUEEN''" "cardValue joker \<noteq> ''JACK''"
    by (simp_all add: card_defs)
  have f: "fold scoreCard [kingOfHearts, queenOfClubs] (Finite 0, 0) = (Finite 20, 0)"
    by (simp add: card_defs js_defs)
  show ?thesis
    using unrecognised_value_is_ace [OF n k, of "Finite 20" 0 "[kingOfHearts, queenOfClubs]"] n f
    by (simp add: aceLoop.simps gt_def sub_def)
qed

section \<open>Facts about the server and the client\<close>

lemmas server_defs = await_def resolve_def reject_def newShuffle_def drawOne_def addToPile_def
  listPile_def selectGame_def insertGame_def updateGame_def drawCardToHand_def getPileData_def

lemmas table_defs = tableWorld_def tableGame_def nextDeck_def card_defs





lemma lt_irrefl: "\<not> lt x x"
  by (cases x) simp_all

lemmas client_defs = stand_def endGame_def initGame_def scoreOf_def scorePlayer_def
  DEALER_def PLAYER_def route_draw_def route_endGame_def route_getOrCreate_def

lemma await_invariant:
  assumes "\<And>w. I w \<Longrightarrow> I (snd (m w))" and "\<And>x w. I w \<Longrightarrow> I (snd (k x w))" and "I w"
  shows "I (snd (await m k w))"
proof (cases "m w")
  case (Pair x w1)
  from assms(1) [OF assms(3)] Pair have w1: "I w1" by simp
  show ?thesis
  proof (cases x)
    case (Inl e)
    with Pair w1 show ?thesis by (simp add: await_def)
  next
    case (Inr v)
    with Pair assms(2) [OF w1, of v] show ?thesis by (simp add: await_def)
  qed
qed

lemma drawCardToHand_keeps:
  "games w = G \<and> decks w d \<noteq> None \<Longrightarrow>
   games (snd (drawCardToHand d' hand w)) = G \<and> decks (snd (drawCardToHand d' hand w)) d \<noteq> None"
  by (simp add: server_defs Let_def split: option.splits list.splits)

lemma getPileData_keeps:
  "games w = G \<and> decks w d \<noteq> None \<Longrightarrow>
   games (snd (getPileData d' hand w)) = G \<and> decks (snd (getPileData d' hand w)) d \<noteq> None"
  by (simp add: server_defs Let_def split: option.splits list.splits)

lemma selectGame_keeps:
  "games w = G \<and> decks w d \<noteq> None \<Longrightarrow>
   games (snd (selectGame name w)) = G \<and> decks (snd (selectGame name w)) d \<noteq> None"
  by (simp add: server_defs)

lemma await_Inr: "m w = (Inr x, w1) \<Longrightarrow> await m k w = k x w1"
  by (simp add: await_def)

section \<open>The claims about a round\<close>

lemma route_endGame_row:
  assumes "games w name = Some r"
  shows "\<exists>r'. games (snd (route_endGame name winner (d, shuffled) w)) name = Some r'
           \<and> deckId r' = d \<and> gameName r' = gameName r
           \<and> gamesWon r' = gamesWon r + (if winner = ''player'' then 1 else 0)
           \<and> gamesLost r' = gamesLost r + (if winner = ''player'' then 0 else 1)
           \<and> decks (snd (route_endGame name winner (d, shuffled) w)) d \<noteq> None
           \<and> (\<forall>other. other \<noteq> name \<longrightarrow>
                games (snd (route_endGame name winner (d, shuffled) w)) other = games w other)"
proof -
  define r' where "r' = (if winner = ''player'' then r\<lparr>deckId := d, gamesWon := gamesWon r + 1\<rparr>
                         else r\<lparr>deckId := d, gamesLost := gamesLost r + 1\<rparr>)"
  define w1 where "w1 = snd (newShuffle (d, shuffled) w)"
  define w2 where "w2 = snd (updateGame (winner = ''player'') d name w1)"
  define I where "I = (\<lambda>v :: world. games v = (games w)(name \<mapsto> r') \<and> decks v d \<noteq> None)"
  have ns: "newShuffle (d, shuffled) w = (Inr d, w1)"
    by (simp add: newShuffle_def w1_def)
  have ug: "updateGame (winner = ''player'') d name w1 = (Inr (), w2)"
    by (simp add: updateGame_def w2_def split: option.splits)
  have i2: "I w2"
    using assms by (simp add: I_def w2_def w1_def r'_def newShuffle_def updateGame_def)
  have keep: "I (snd (drawCardToHand d hand v))" "I (snd (getPileData d hand v))"
      "I (snd (selectGame name v))" if "I v" for v hand
    using that drawCardToHand_keeps [of v "(games w)(name \<mapsto> r')" d d hand]
      getPileData_keeps [of v "(games w)(name \<mapsto> r')" d d hand]
      selectGame_keeps [of v "(games w)(name \<mapsto> r')" d name]
    by (simp_all add: I_def)
  have last: "I (snd ((case response of
          [] \<Rightarrow> reject TypeError
        | r # _ \<Rightarrow>
            resolve \<lparr>gameName = name, deckId = d, gamesWon = gamesWon r,
                     gamesLost = gamesLost r,
                     dealerPile = dp, playerPile = pp,
                     scores = Map.empty\<rparr>) v))" if "I v" for v response dp pp
    using that by (simp add: resolve_def reject_def split: list.splits)
  have "I (snd (route_endGame name winner (d, shuffled) w))"
    unfolding route_endGame_def
    apply (simp only: await_Inr [where m = "newShuffle (d, shuffled)" and w = w, OF ns]
        await_Inr [where m = "updateGame (winner = ''player'') d name" and w = w1, OF ug])
    apply (rule await_invariant [where I = I], erule keep)
    apply (rule await_invariant [where I = I], erule keep)
    apply (rule await_invariant [where I = I], erule keep)
    apply (rule await_invariant [where I = I], erule keep)
    apply (rule await_invariant [where I = I], erule keep)
    apply (rule await_invariant [where I = I], erule keep)
    apply (rule await_invariant [where I = I], erule keep)
           apply (erule last)
          apply assumption+
    apply (rule i2)
    done
  then show ?thesis
    by (auto simp: I_def r'_def)
qed

lemma endGame_world:
  "snd (endGame role fresh g w) = snd (route_endGame (gameName g) role fresh w)"
  by (simp add: endGame_def await_def resolve_def split: prod.splits sum.splits)

text \<open>
  C4. Once the loop of the dealer has ended in a game state, \<open>stand\<close> is the call of
  \<open>endGame\<close> with the role \<open>PLAYER\<close> exactly when the dealer's score in that state is
  above 21 or strictly below the player's, and with the role \<open>DEALER\<close> otherwise; the two
  roles differ, and on equal scores that are not above 21 the role is \<open>DEALER\<close>. The server
  records that role: for a stored game, \<open>stand\<close> leaves \<open>gamesWon\<close> one higher in the first
  case and \<open>gamesLost\<close> one higher in the second, the other counter as it was.
\<close>

theorem stand_declares_winner:
  assumes "dealerLoop game w = (Inr g, w1)"
  shows "stand fresh game w =
           endGame (if gt (scoreOf g DEALER) (Finite 21) \<or> lt (scoreOf g DEALER) (scoreOf g PLAYER)
                    then PLAYER else DEALER) fresh g w1
         \<and> PLAYER \<noteq> DEALER
         \<and> (scoreOf g DEALER = scoreOf g PLAYER \<and> \<not> gt (scoreOf g DEALER) (Finite 21)
              \<longrightarrow> stand fresh game w = endGame DEALER fresh g w1)
         \<and> (\<forall>r. games w1 (gameName g) = Some r \<longrightarrow>
               (\<exists>r'. games (snd (stand fresh game w)) (gameName g) = Some r'
                  \<and> (if gt (scoreOf g DEALER) (Finite 21) \<or> lt (scoreOf g DEALER) (scoreOf g PLAYER)
                      then gamesWon r' = gamesWon r + 1 \<and> gamesLost r' = gamesLost r
                      else gamesWon r' = gamesWon r \<and> gamesLost r' = gamesLost r + 1)))"
proof -
  define role where "role = (if gt (scoreOf g DEALER) (Finite 21)
      \<or> lt (scoreOf g DEALER) (scoreOf g PLAYER) then PLAYER else DEALER)"
  have call: "stand fresh game w = endGame role fresh g w1"
    using assms by (simp add: stand_def await_def role_def)
  have ne: "PLAYER \<noteq> DEALER"
    by (simp add: PLAYER_def DEALER_def)
  have tie: "role = DEALER"
    if "scoreOf g DEALER = scoreOf g PLAYER" "\<not> gt (scoreOf g DEALER) (Finite 21)"
    using that by (simp add: role_def lt_irrefl)
  have effect: "\<exists>r'. games (snd (stand fresh game w)) (gameName g) = Some r'
      \<and> (if gt (scoreOf g DEALER) (Finite 21) \<or> lt (scoreOf g DEALER) (scoreOf g PLAYER)
          then gamesWon r' = gamesWon r + 1 \<and> gamesLost r' = gamesLost r
          else gamesWon r' = gamesWon r \<and> gamesLost r' = gamesLost r + 1)"
    if r: "games w1 (gameName g) = Some r" for r
  proof -
    obtain d shuffled where f: "fresh = (d, shuffled)"
      by (cases fresh)
    from route_endGame_row [OF r, of role d shuffled]
    obtain r' where r': "games (snd (route_endGame (gameName g) role fresh w1)) (gameName g) = Some r'"
      "gamesWon r' = gamesWon r + (if role = ''player'' then 1 else 0)"
      "gamesLost r' = gamesLost r + (if role = ''player'' then 0 else 1)"
      unfolding f by blast
    have "games (snd (stand fresh game w)) (gameName g) = Some r'"
      using r'(1) by (simp add: call endGame_world)
    moreover have "role = ''player'' \<longleftrightarrow>
        gt (scoreOf g DEALER) (Finite 21) \<or> lt (scoreOf g DEALER) (scoreOf g PLAYER)"
      by (simp add: role_def PLAYER_def DEALER_def)
    ultimately show ?thesis
      using r'(2,3) by auto
  qed
  from call ne tie effect show ?thesis
    unfolding role_def by auto
qed

theorem stand_declares_winner_witness:
  "\<exists>g w1. dealerLoop tableGame tableWorld = (Inr g, w1)
      \<and> scoreOf g DEALER = Finite 22 \<and> scoreOf g PLAYER = Finite 19
      \<and> stand nextDeck tableGame tableWorld = endGame PLAYER nextDeck g w1
      \<and> (\<exists>r'. games (snd (stand nextDeck tableGame tableWorld)) ''g'' = Some r'
            \<and> gamesWon r' = 3 \<and> gamesLost r' = 3)"
proof -
  obtain g w1 where l: "dealerLoop tableGame tableWorld = (Inr g, w1)"
    and d: "scoreOf g DEALER = Finite 22" and p: "scoreOf g PLAYER = Finite 19"
    and n: "gameName g = ''g''"
    and r: "games w1 ''g'' = Some \<lparr>gameName = ''g'', deckId = ''d1'', gamesWon = 2, gamesLost = 3\<rparr>"
    by (simp add: table_defs client_defs eval_defs dealerLoop.simps server_defs Let_def)
  have c: "gt (scoreOf g DEALER) (Finite 21)"
    by (simp add: d gt_def)
  from stand_declares_winner [OF l, of nextDeck] c n r
  have "stand nextDeck tableGame tableWorld = endGame PLAYER nextDeck g w1"
    and "\<exists>r'. games (snd (stand nextDeck tableGame tableWorld)) ''g'' = Some r'
            \<and> gamesWon r' = 3 \<and> gamesLost r' = 3"
    by auto
  with l d p show ?thesis by blast
qed



text \<open>
  C7. A fresh round deals two cards to each pile, one at a time and in turns: from a newly
  shuffled deck \<open>c1, c2, c3, c4, ...\<close> the player gets \<open>c1\<close> and \<open>c3\<close>, the dealer \<open>c2\<close>
  and \<open>c4\<close>, and the Card Source sees the draws in the order player, dealer, player,
  dealer, each card put in its pile before the next is drawn. This holds for the new game
  of the route \<open>getOrCreate\<close> and for the round the route \<open>endGame\<close> opens.
\<close>

theorem opening_deal_alternates:
  assumes "games w1 name1 = None" and "games w2 name2 = Some r"
  shows "(\<exists>g w'. route_getOrCreate name1 (d, c1 # c2 # c3 # c4 # rest) w1 = (Inr g, w')
            \<and> cards (playerPile g) = [c1, c3] \<and> cards (dealerPile g) = [c2, c4]
            \<and> requests w' = requests w1 @ openingRequests d c1 c2 c3 c4)
       \<and> (\<exists>g w'. route_endGame name2 winner (d, c1 # c2 # c3 # c4 # rest) w2 = (Inr g, w')
            \<and> cards (playerPile g) = [c1, c3] \<and> cards (dealerPile g) = [c2, c4]
            \<and> requests w' = requests w2 @ openingRequests d c1 c2 c3 c4)"
proof
  show "\<exists>g w'. route_getOrCreate name1 (d, c1 # c2 # c3 # c4 # rest) w1 = (Inr g, w')
            \<and> cards (playerPile g) = [c1, c3] \<and> cards (dealerPile g) = [c2, c4]
            \<and> requests w' = requests w1 @ openingRequests d c1 c2 c3 c4"
    using assms(1)
    by (simp add: route_getOrCreate_def server_defs Let_def openingRequests_def)
  show "\<exists>g w'. route_endGame name2 winner (d, c1 # c2 # c3 # c4 # rest) w2 = (Inr g, w')
            \<and> cards (playerPile g) = [c1, c3] \<and> cards (dealerPile g) = [c2, c4]
            \<and> requests w' = requests w2 @ openingRequests d c1 c2 c3 c4"
    using assms(2)
    by (simp add: route_endGame_def server_defs Let_def openingRequests_def)
qed

theorem opening_deal_alternates_witness:
  "games tableWorld ''h'' = None
   \<and> games tableWorld ''g'' = Some \<lparr>gameName = ''g'', deckId = ''d1'', gamesWon = 2, gamesLost = 3\<rparr>
   \<and> (\<exists>g w'. route_getOrCreate ''h''
               (''d2'', queenOfClubs # aceOfHearts # fiveOfClubs # sevenOfClubs # [tenOfSpades])
               tableWorld = (Inr g, w')
         \<and> cards (playerPile g) = [queenOfClubs, fiveOfClubs]
         \<and> cards (dealerPile g) = [aceOfHearts, sevenOfClubs])
   \<and> (\<exists>g w'. route_endGame ''g'' ''dealer''
               (''d2'', queenOfClubs # aceOfHearts # fiveOfClubs # sevenOfClubs # [tenOfSpades])
               tableWorld = (Inr g, w')
         \<and> cards (playerPile g) = [queenOfClubs, fiveOfClubs]
         \<and> cards (dealerPile g) = [aceOfHearts, sevenOfClubs])"
proof -
  have a: "games tableWorld ''h'' = None"
    by (simp add: tableWorld_def)
  have b: "games tableWorld ''g''
             = Some \<lparr>gameName = ''g'', deckId = ''d1'', gamesWon = 2, gamesLost = 3\<rparr>"
    by (simp add: tableWorld_def)
  from opening_deal_alternates [OF a b, of "''d2''" queenOfClubs aceOfHearts fiveOfClubs
      sevenOfClubs "[tenOfSpades]" "''dealer''"] a b
  show ?thesis by blast
qed

text \<open>
  C8, as stated, fails: a request to end a round may name a game that is not stored. Then
  the update finds no row, neither counter of any row rises, and the route fails when it
  reads the row it has selected.
\<close>

theorem endGame_counts_none_counterexample:
  "games tableWorld ''h'' = None
   \<and> fst (route_endGame ''h'' ''player'' nextDeck tableWorld) = Inl TypeError
   \<and> games (snd (route_endGame ''h'' ''player'' nextDeck tableWorld)) ''h'' = None
   \<and> games (snd (route_endGame ''h'' ''player'' nextDeck tableWorld)) ''g''
       = Some \<lparr>gameName = ''g'', deckId = ''d1'', gamesWon = 2, gamesLost = 3\<rparr>"
  by (simp add: table_defs route_endGame_def server_defs Let_def)

text \<open>
  C8, amended. A request to end a round of a stored game adds one to exactly one of its
  two counters, \<open>gamesWon\<close> when the winner is \<open>player\<close> and \<open>gamesLost\<close> otherwise, leaves
  the other counter as it was, and binds the row to the deck that the request has just
  created; no other row changes.
\<close>

theorem endGame_counts_one:
  assumes "games w name = Some r"
  shows "\<exists>r'. games (snd (route_endGame name winner (d, shuffled) w)) name = Some r'
           \<and> deckId r' = d \<and> gameName r' = gameName r
           \<and> gamesWon r' = gamesWon r + (if winner = ''player'' then 1 else 0)
           \<and> gamesLost r' = gamesLost r + (if winner = ''player'' then 0 else 1)
           \<and> decks (snd (route_endGame name winner (d, shuffled) w)) d \<noteq> None
           \<and> (\<forall>other. other \<noteq> name \<longrightarrow>
                games (snd (route_endGame name winner (d, shuffled) w)) other = games w other)"
  using assms by (rule route_endGame_row)

theorem endGame_counts_one_witness:
  "games tableWorld ''g'' = Some \<lparr>gameName = ''g'', deckId = ''d1'', gamesWon = 2, gamesLost = 3\<rparr>
   \<and> games (snd (route_endGame ''g'' ''player'' nextDeck tableWorld)) ''g''
       = Some \<lparr>gameName = ''g'', deckId = ''d2'', gamesWon = 3, gamesLost = 3\<rparr>
   \<and> games (snd (route_endGame ''g'' ''dealer'' nextDeck tableWorld)) ''g''
       = Some \<lparr>gameName = ''g'', deckId = ''d2'', gamesWon = 2, gamesLost = 4\<rparr>"
proof -
  have b: "games tableWorld ''g''
             = Some \<lparr>gameName = ''g'', deckId = ''d1'', gamesWon = 2, gamesLost = 3\<rparr>"
    by (simp add: tableWorld_def)
  have n: "nextDeck = (''d2'', snd nextDeck)"
    by (simp add: nextDeck_def)
  from endGame_counts_one [OF b, of "''player''" "''d2''" "snd nextDeck"]
  have p: "games (snd (route_endGame ''g'' ''player'' nextDeck tableWorld)) ''g''
       = Some \<lparr>gameName = ''g'', deckId = ''d2'', gamesWon = 3, gamesLost = 3\<rparr>"
    unfolding n [symmetric] by auto
  from endGame_counts_one [OF b, of "''dealer''" "''d2''" "snd nextDeck"]
  have q: "games (snd (route_endGame ''g'' ''dealer'' nextDeck tableWorld)) ''g''
       = Some \<lparr>gameName = ''g'', deckId = ''d2'', gamesWon = 2, gamesLost = 4\<rparr>"
    unfolding n [symmetric] by auto
  from b p q show ?thesis by simp
qed

end
